theory Spec2Isabelle
  imports
    Main
    "HOL-Library.Char_ord"
    "HOL-Library.List_Lexorder"
    "HOL-Library.Sublist"
    "HOL-Library.AList"
    "HOL-Library.Multiset"
begin

section \<open>Checkpoint files of the notebook 6\_SavingAndLoadingModels\<close>

text \<open>
  The notebook saves training checkpoints under time-stamped names, lists them with
  \<^verbatim>\<open>sorted(glob.glob('check_*.pth'))\<close>, deletes all but the last three of that
  listing and loads the last one:
  \<^verbatim>\<open>
  def timestamp():
      t = time.localtime()
      return time.strftime('%Y_%b_%d_%H_%M_%S', t)

  torch.save({...}, f"check_{timestamp()}.pth")

  checkpoints = sorted(glob.glob('check_*.pth'))
  for file in checkpoints[:-3]:
      os.remove(file)

  checkpoint = torch.load(checkpoints[-1])
  \<close>
  Strings are byte lists (UTF-8); comparing them byte by byte, as the order on
  \<^typ>\<open>string\<close> does, agrees with Python's comparison of \<^verbatim>\<open>str\<close> by code point.
\<close>

subsection \<open>Python exceptions and sequence operations\<close>

datatype py_error = IndexError | ValueError | FileNotFoundError | IsADirectoryError

text \<open>\<^verbatim>\<open>xs[:stop]\<close>: a negative stop counts from the end, and the bound is clipped
  to the list.\<close>

definition py_slice_to :: "'a list \<Rightarrow> int \<Rightarrow> 'a list" where
  "py_slice_to xs stop =
     (let n = int (length xs);
          j = (if stop < 0 then max 0 (n + stop) else min stop n)
      in take (nat j) xs)"

text \<open>\<^verbatim>\<open>xs[i]\<close>: a negative index counts from the end, and an index outside the list
  raises \<^verbatim>\<open>IndexError\<close>.\<close>

definition py_index :: "'a list \<Rightarrow> int \<Rightarrow> py_error + 'a" where
  "py_index xs i =
     (let n = int (length xs);
          j = (if i < 0 then i + n else i)
      in if j < 0 \<or> n \<le> j then Inl IndexError else Inr (xs ! nat j))"

subsection \<open>The time stamp\<close>

text \<open>The fields of \<^verbatim>\<open>time.struct_time\<close> that the format reads.\<close>

record struct_time =
  tm_year :: nat
  tm_mon :: nat
  tm_mday :: nat
  tm_hour :: nat
  tm_min :: nat
  tm_sec :: nat

definition digit :: "nat \<Rightarrow> char" where
  "digit d = ''0123456789'' ! (d mod 10)"

text \<open>\<^verbatim>\<open>%d\<close>, \<^verbatim>\<open>%H\<close>, \<^verbatim>\<open>%M\<close>, \<^verbatim>\<open>%S\<close>: two decimal digits, zero padded.\<close>

definition two_digits :: "nat \<Rightarrow> string" where
  "two_digits n = [digit (n div 10), digit n]"

text \<open>\<^verbatim>\<open>%Y\<close>: the year with century as a decimal number.\<close>

function decimal :: "nat \<Rightarrow> string" where
  "decimal n = (if n < 10 then [digit n] else decimal (n div 10) @ [digit n])"
  by pat_completeness auto
termination
  by (relation "measure id") auto

text \<open>\<^verbatim>\<open>%b\<close>: the abbreviated month name (of the C locale, the one in the notebook's
  recorded output \<^verbatim>\<open>check_2021_Sep_19_17_24_39.pth\<close>).\<close>

definition month_abbr :: "string list" where
  "month_abbr = [''Jan'', ''Feb'', ''Mar'', ''Apr'', ''May'', ''Jun'',
                 ''Jul'', ''Aug'', ''Sep'', ''Oct'', ''Nov'', ''Dec'']"

text \<open>The ranges that \<^verbatim>\<open>time.strftime\<close> accepts; \<^verbatim>\<open>time.localtime()\<close> returns months
  from 1 to 12 and days from 1 to 31, and the library reads a month or a day of 0 as 1.\<close>

definition tm_in_range :: "struct_time \<Rightarrow> bool" where
  "tm_in_range t \<longleftrightarrow>
     tm_mon t \<le> 12 \<and> tm_mday t \<le> 31 \<and>
     tm_hour t \<le> 23 \<and> tm_min t \<le> 59 \<and> tm_sec t \<le> 61"

definition zero_as_one :: "nat \<Rightarrow> nat" where
  "zero_as_one n = (if n = 0 then 1 else n)"

text \<open>\<^verbatim>\<open>time.strftime('%Y_%b_%d_%H_%M_%S', t)\<close>; a field out of range raises
  \<^verbatim>\<open>ValueError\<close>.\<close>

definition strftime :: "struct_time \<Rightarrow> py_error + string" where
  "strftime t =
     (if tm_in_range t
      then Inr (decimal (tm_year t) @ ''_'' @
                month_abbr ! (zero_as_one (tm_mon t) - 1) @ ''_'' @
                two_digits (zero_as_one (tm_mday t)) @ ''_'' @
                two_digits (tm_hour t) @ ''_'' @
                two_digits (tm_min t) @ ''_'' @ two_digits (tm_sec t))
      else Inl ValueError)"

text \<open>\<^verbatim>\<open>timestamp()\<close>, with the value of \<^verbatim>\<open>time.localtime()\<close> as its argument.\<close>

definition timestamp :: "struct_time \<Rightarrow> py_error + string" where
  "timestamp t = strftime t"

text \<open>The file name \<^verbatim>\<open>f"check_{timestamp()}.pth"\<close>.\<close>

definition checkpoint_name :: "struct_time \<Rightarrow> py_error + string" where
  "checkpoint_name t =
     (case timestamp t of Inl e \<Rightarrow> Inl e | Inr s \<Rightarrow> Inr (''check_'' @ s @ ''.pth''))"

text \<open>Local time \<open>a\<close> is before local time \<open>b\<close>: the fields compared from the year
  down to the second.\<close>

definition tm_fields :: "struct_time \<Rightarrow> nat list" where
  "tm_fields t = [tm_year t, tm_mon t, tm_mday t, tm_hour t, tm_min t, tm_sec t]"

definition tm_before :: "struct_time \<Rightarrow> struct_time \<Rightarrow> bool" where
  "tm_before a b \<longleftrightarrow> tm_fields a < tm_fields b"

subsection \<open>The working directory\<close>

text \<open>
  The working directory is either missing or holds sub-directories and regular files;
  \<open>names\<close> gives its entries in the order in which the operating system enumerates
  them. \<open>'p\<close> is what a regular file holds. \<open>Dir es\<close> is a directory that holds
  regular files only. File names are unique in a directory.
\<close>

datatype 'p storage = Missing | Directory "string list" "(string \<times> 'p) list"

abbreviation Dir :: "(string \<times> 'p) list \<Rightarrow> 'p storage" where
  "Dir es \<equiv> Directory [] es"

fun names :: "'p storage \<Rightarrow> string list" where
  "names Missing = []"
| "names (Directory ds es) = ds @ map fst es"

fun subdirs :: "'p storage \<Rightarrow> string list" where
  "subdirs Missing = []"
| "subdirs (Directory ds es) = ds"

fun content :: "'p storage \<Rightarrow> string \<Rightarrow> 'p option" where
  "content Missing f = None"
| "content (Directory ds es) f = map_of es f"

definition unique_names :: "'p storage \<Rightarrow> bool" where
  "unique_names fs \<longleftrightarrow> distinct (names fs)"

text \<open>\<^verbatim>\<open>fnmatch\<close> for patterns whose only special character is \<^verbatim>\<open>*\<close>, which
  matches any run of characters.\<close>

fun fnmatch :: "string \<Rightarrow> string \<Rightarrow> bool" where
  "fnmatch [] [] \<longleftrightarrow> True"
| "fnmatch [] (c # cs) \<longleftrightarrow> False"
| "fnmatch (p # ps) [] \<longleftrightarrow> p = CHR ''*'' \<and> fnmatch ps []"
| "fnmatch (p # ps) (c # cs) \<longleftrightarrow>
     (if p = CHR ''*'' then fnmatch ps (c # cs) \<or> fnmatch (p # ps) cs
      else p = c \<and> fnmatch ps cs)"

definition ishidden :: "string \<Rightarrow> bool" where
  "ishidden s \<longleftrightarrow> (case s of [] \<Rightarrow> False | c # _ \<Rightarrow> c = CHR ''.'')"

text \<open>\<^verbatim>\<open>glob.glob(pat)\<close> for a pattern without a directory part: the names of the
  working directory that match, in directory order; names starting with a dot only when
  the pattern does. A directory that cannot be read yields no names.\<close>

definition glob_match :: "string \<Rightarrow> string \<Rightarrow> bool" where
  "glob_match pat f \<longleftrightarrow> (ishidden pat \<or> \<not> ishidden f) \<and> fnmatch pat f"

fun glob :: "string \<Rightarrow> 'p storage \<Rightarrow> string list" where
  "glob pat Missing = []"
| "glob pat (Directory ds es) = filter (glob_match pat) (ds @ map fst es)"

text \<open>The directories the clean-up is written for: the names are unique, as in every
  directory, and no sub-directory has a name that \<^verbatim>\<open>check_*.pth\<close> matches. A
  sub-directory with such a name is a state the file system allows.\<close>

definition wf_storage :: "'p storage \<Rightarrow> bool" where
  "wf_storage fs \<longleftrightarrow>
     distinct (names fs) \<and> (\<forall>d \<in> set (subdirs fs). \<not> glob_match ''check_*.pth'' d)"

text \<open>\<^verbatim>\<open>os.remove(file)\<close> (POSIX): it removes a regular file and raises
  \<^verbatim>\<open>IsADirectoryError\<close> for a directory and \<^verbatim>\<open>FileNotFoundError\<close> for a name that
  is not there.\<close>

fun os_remove :: "string \<Rightarrow> 'p storage \<Rightarrow> py_error + 'p storage" where
  "os_remove f Missing = Inl FileNotFoundError"
| "os_remove f (Directory ds es) =
     (if f \<in> set ds then Inl IsADirectoryError
      else if f \<in> set (map fst es) then Inr (Directory ds (AList.delete f es))
      else Inl FileNotFoundError)"

text \<open>\<^verbatim>\<open>torch.save(obj, f)\<close> and \<^verbatim>\<open>torch.load(f)\<close>, as far as the names of the
  directory go: which file is written and which file is read. The pickled bytes are not
  modelled: a file holds the object that was saved and loading returns what the file
  holds, so nothing here says what the serialiser does to an object.\<close>

fun torch_save :: "'p \<Rightarrow> string \<Rightarrow> 'p storage \<Rightarrow> py_error + 'p storage" where
  "torch_save obj f Missing = Inl FileNotFoundError"
| "torch_save obj f (Directory ds es) =
     (if f \<in> set ds then Inl IsADirectoryError
      else Inr (Directory ds (AList.update f obj es)))"

fun torch_load :: "string \<Rightarrow> 'p storage \<Rightarrow> py_error + 'p" where
  "torch_load f Missing = Inl FileNotFoundError"
| "torch_load f (Directory ds es) =
     (if f \<in> set ds then Inl IsADirectoryError
      else case map_of es f of None \<Rightarrow> Inl FileNotFoundError | Some obj \<Rightarrow> Inr obj)"

subsection \<open>The notebook's cells\<close>

text \<open>The save inside the training loop, at local time \<open>t\<close>.\<close>

definition save_checkpoint :: "struct_time \<Rightarrow> 'p \<Rightarrow> 'p storage \<Rightarrow> py_error + 'p storage" where
  "save_checkpoint t obj fs =
     (case checkpoint_name t of Inl e \<Rightarrow> Inl e | Inr f \<Rightarrow> torch_save obj f fs)"

text \<open>\<^verbatim>\<open>checkpoints = sorted(glob.glob('check_*.pth'))\<close>.\<close>

definition list_checkpoints :: "'p storage \<Rightarrow> string list" where
  "list_checkpoints fs = sort (glob ''check_*.pth'' fs)"

text \<open>The sequence the loop runs over, \<^verbatim>\<open>checkpoints[:-3]\<close>.\<close>

definition old_checkpoints :: "string list \<Rightarrow> string list" where
  "old_checkpoints checkpoints = py_slice_to checkpoints (- 3)"

text \<open>\<^verbatim>\<open>for file in files: os.remove(file)\<close>. An exception ends the loop; the files
  removed before it stay removed, so the error comes with the directory as it was left.\<close>

fun remove_loop :: "string list \<Rightarrow> 'p storage \<Rightarrow> (py_error \<times> 'p storage) + 'p storage" where
  "remove_loop [] fs = Inr fs"
| "remove_loop (file # files) fs =
     (case os_remove file fs of
        Inl e \<Rightarrow> Inl (e, fs)
      | Inr fs' \<Rightarrow> remove_loop files fs')"

text \<open>The whole cell, which the notebook runs twice (the second time under the comment
  \<^verbatim>\<open># clean up checkpoint files\<close>).\<close>

definition cleanup :: "'p storage \<Rightarrow> (py_error \<times> 'p storage) + 'p storage" where
  "cleanup fs =
     (let checkpoints = list_checkpoints fs
      in remove_loop (old_checkpoints checkpoints) fs)"

text \<open>The slice and the cell with another number in the place of the literal 3. The
  notebook has the 3 only: \<open>to_remove cs 3\<close> is \<open>old_checkpoints cs\<close> and \<open>prune 3\<close>
  is \<open>cleanup\<close>. They serve to state properties that do not depend on the number.\<close>

definition to_remove :: "string list \<Rightarrow> int \<Rightarrow> string list" where
  "to_remove checkpoints keep_count = py_slice_to checkpoints (- keep_count)"

definition prune :: "int \<Rightarrow> 'p storage \<Rightarrow> (py_error \<times> 'p storage) + 'p storage" where
  "prune keep_count fs =
     (let checkpoints = list_checkpoints fs
      in remove_loop (to_remove checkpoints keep_count) fs)"

text \<open>\<^verbatim>\<open>checkpoints[-1]\<close>, the name handed to \<^verbatim>\<open>torch.load\<close>.\<close>

definition latest :: "string list \<Rightarrow> py_error + string" where
  "latest checkpoints = py_index checkpoints (- 1)"

definition load_latest :: "'p storage \<Rightarrow> py_error + 'p" where
  "load_latest fs =
     (case latest (list_checkpoints fs) of Inl e \<Rightarrow> Inl e | Inr f \<Rightarrow> torch_load f fs)"

text \<open>The directory an execution leaves behind, whether it ended normally or with an
  exception.\<close>

definition storage_after :: "(py_error \<times> 'p storage) + 'p storage \<Rightarrow> 'p storage" where
  "storage_after r = (case r of Inl (e, fs) \<Rightarrow> fs | Inr fs \<Rightarrow> fs)"

text \<open>A name that has the prefix \<^verbatim>\<open>check_\<close> and the suffix \<^verbatim>\<open>.pth\<close>; it is
  shown below to be what the pattern \<^verbatim>\<open>check_*.pth\<close> matches.\<close>

definition is_checkpoint :: "string \<Rightarrow> bool" where
  "is_checkpoint f \<longleftrightarrow> prefix ''check_'' f \<and> suffix ''.pth'' f"

section \<open>Properties of the sequence operations and of the directory\<close>

lemma py_slice_to_prefix: "prefix (py_slice_to xs stop) xs"
  by (simp add: py_slice_to_def Let_def take_is_prefix)


lemma to_remove_prefix: "prefix (to_remove cs k) cs"
  by (simp add: to_remove_def py_slice_to_prefix)

lemma old_checkpoints_to_remove: "old_checkpoints cs = to_remove cs 3"
  by (simp add: old_checkpoints_def to_remove_def)

lemma cleanup_prune: "cleanup fs = prune 3 fs"
  by (simp add: cleanup_def prune_def old_checkpoints_to_remove)


lemma remove_loop_Directory:
  "distinct files \<Longrightarrow> set files \<subseteq> set ds \<union> fst ` set es \<Longrightarrow>
   remove_loop files (Directory ds es) =
     (if takeWhile (\<lambda>f. f \<notin> set ds) files = files
      then Inr (Directory ds (filter (\<lambda>e. fst e \<notin> set files) es))
      else Inl (IsADirectoryError,
             Directory ds (filter (\<lambda>e. fst e \<notin> set (takeWhile (\<lambda>f. f \<notin> set ds) files)) es)))"
proof (induction files arbitrary: es)
  case Nil
  then show ?case by simp
next
  case (Cons f files)
  show ?case
  proof (cases "f \<in> set ds")
    case True
    then show ?thesis by simp
  next
    case False
    have del: "AList.delete f es = filter (\<lambda>e. fst e \<noteq> f) es"
      by (induction es) auto
    have f_in: "f \<in> fst ` set es"
      using Cons.prems False by auto
    have "set files \<subseteq> set ds \<union> fst ` set (AList.delete f es)"
    proof
      fix x assume x: "x \<in> set files"
      with Cons.prems have "x \<noteq> f" and "x \<in> set ds \<union> fst ` set es" by auto
      then show "x \<in> set ds \<union> fst ` set (AList.delete f es)"
        unfolding del by force
    qed
    with Cons have IH: "remove_loop files (Directory ds (AList.delete f es)) =
     (if takeWhile (\<lambda>f. f \<notin> set ds) files = files
      then Inr (Directory ds (filter (\<lambda>e. fst e \<notin> set files) (AList.delete f es)))
      else Inl (IsADirectoryError,
             Directory ds (filter (\<lambda>e. fst e \<notin> set (takeWhile (\<lambda>f. f \<notin> set ds) files))
               (AList.delete f es))))"
      by simp
    have c: "\<And>S. filter (\<lambda>e. fst e \<notin> S) (AList.delete f es) =
        filter (\<lambda>e. fst e \<notin> insert f S) es"
      unfolding del by (auto intro: filter_cong)
    from False f_in IH show ?thesis
      by (simp add: c)
  qed
qed

lemma fnmatch_literal: "CHR ''*'' \<notin> set ps \<Longrightarrow> fnmatch ps cs \<longleftrightarrow> ps = cs"
  by (induction ps cs rule: fnmatch.induct) auto

lemma fnmatch_star: "fnmatch (CHR ''*'' # ps) cs \<longleftrightarrow> (\<exists>ys zs. cs = ys @ zs \<and> fnmatch ps zs)"
proof (induction cs)
  case Nil
  then show ?case by simp
next
  case (Cons c cs)
  then show ?case by (auto simp: Cons_eq_append_conv)
qed

lemma fnmatch_check_pth: "fnmatch ''check_*.pth'' f \<longleftrightarrow> (\<exists>mid. f = ''check_'' @ mid @ ''.pth'')"
proof -
  have lit: "\<And>p ps cs. p \<noteq> CHR ''*'' \<Longrightarrow> fnmatch (p # ps) cs \<longleftrightarrow> (\<exists>cs'. cs = p # cs' \<and> fnmatch ps cs')"
    subgoal for p ps cs by (cases cs) auto
    done
  have tail: "\<And>zs. fnmatch ''.pth'' zs \<longleftrightarrow> zs = ''.pth''"
    using fnmatch_literal [of "''.pth''"] by auto
  show ?thesis
    by (auto simp: lit fnmatch_star tail)
qed

lemma is_checkpoint_iff: "is_checkpoint f \<longleftrightarrow> fnmatch ''check_*.pth'' f"
proof
  assume "is_checkpoint f"
  then obtain zs ys where f: "f = ''check_'' @ zs" and g: "f = ys @ ''.pth''"
    unfolding is_checkpoint_def prefix_def suffix_def by blast
  from f g have "''check_'' @ zs = ys @ ''.pth''" by simp
  then obtain mid where "ys = ''check_'' @ mid"
    by (auto simp: Cons_eq_append_conv)
  with g show "fnmatch ''check_*.pth'' f"
    unfolding fnmatch_check_pth by auto
next
  assume "fnmatch ''check_*.pth'' f"
  then show "is_checkpoint f"
    by (auto simp: is_checkpoint_def fnmatch_check_pth prefix_def suffix_def)
qed

lemma is_checkpoint_not_hidden: "is_checkpoint f \<Longrightarrow> \<not> ishidden f"
  by (auto simp: is_checkpoint_def ishidden_def prefix_def)

lemma glob_names: "glob pat fs = filter (glob_match pat) (names fs)"
  by (cases fs) simp_all

lemma glob_match_checkpoint: "glob_match ''check_*.pth'' f \<longleftrightarrow> is_checkpoint f"
  by (auto simp: glob_match_def is_checkpoint_iff [symmetric] is_checkpoint_not_hidden)

lemma glob_checkpoints: "glob ''check_*.pth'' fs = filter is_checkpoint (names fs)"
  unfolding glob_names by (rule filter_cong) (simp_all add: glob_match_checkpoint)

lemma list_checkpoints_eq: "list_checkpoints fs = sort (filter is_checkpoint (names fs))"
  by (simp add: list_checkpoints_def glob_checkpoints)

lemma sorted_list_checkpoints: "sorted (list_checkpoints fs)"
  by (simp add: list_checkpoints_eq)

lemma set_list_checkpoints: "set (list_checkpoints fs) = {f \<in> set (names fs). is_checkpoint f}"
  by (simp add: list_checkpoints_eq)

lemma distinct_list_checkpoints: "unique_names fs \<Longrightarrow> distinct (list_checkpoints fs)"
  by (simp add: list_checkpoints_eq unique_names_def)

lemma wf_storage_unique: "wf_storage fs \<Longrightarrow> unique_names fs"
  by (simp add: wf_storage_def unique_names_def)

lemma wf_storage_no_subdir: "wf_storage fs \<Longrightarrow> set (list_checkpoints fs) \<inter> set (subdirs fs) = {}"
  by (auto simp: wf_storage_def set_list_checkpoints glob_match_checkpoint)

lemma map_of_filter_names:
  "map_of (filter (\<lambda>e. fst e \<notin> S) es) g = (if g \<in> S then None else map_of es g)"
  by (induction es) auto

lemma remove_loop_ok:
  assumes "distinct files" and "set files \<subseteq> set (names fs)"
    and "set files \<inter> set (subdirs fs) = {}"
  shows "\<exists>fs'. remove_loop files fs = Inr fs' \<and>
           names fs' = filter (\<lambda>n. n \<notin> set files) (names fs) \<and>
           subdirs fs' = subdirs fs \<and>
           (\<forall>g. content fs' g = (if g \<in> set files then None else content fs g))"
proof (cases fs)
  case Missing
  with assms show ?thesis by simp
next
  case (Directory ds es)
  from assms(3) Directory have t: "takeWhile (\<lambda>f. f \<notin> set ds) files = files"
    by (auto simp: takeWhile_eq_all_conv)
  from assms(3) Directory have n: "filter (\<lambda>n. n \<notin> set files) ds = ds"
    by (auto simp: filter_id_conv)
  from assms Directory
  have "remove_loop files fs = Inr (Directory ds (filter (\<lambda>e. fst e \<notin> set files) es))"
    by (simp add: remove_loop_Directory t)
  then show ?thesis
    using Directory n by (simp add: filter_map comp_def map_of_filter_names)
qed

lemma filter_not_in_take:
  "distinct cs \<Longrightarrow> filter (\<lambda>n. n \<notin> set (take m cs)) cs = drop m cs"
proof -
  assume d: "distinct cs"
  have "set (take m cs) \<inter> set (drop m cs) = {}"
    using d by (simp add: set_take_disj_set_drop_if_distinct)
  then have a: "filter (\<lambda>n. n \<notin> set (take m cs)) (drop m cs) = drop m cs"
    by (auto simp: filter_id_conv)
  have b: "filter (\<lambda>n. n \<notin> set (take m cs)) (take m cs) = []"
    by (simp add: filter_empty_conv)
  have "filter (\<lambda>n. n \<notin> set (take m cs)) (take m cs @ drop m cs) = drop m cs"
    unfolding filter_append a b by simp
  then show ?thesis by simp
qed

lemma remove_oldest:
  assumes "wf_storage fs"
  shows "\<exists>fs'. remove_loop (take m (list_checkpoints fs)) fs = Inr fs' \<and>
           wf_storage fs' \<and>
           list_checkpoints fs' = drop m (list_checkpoints fs) \<and>
           (\<forall>g. content fs' g = (if g \<in> set (take m (list_checkpoints fs)) then None else content fs g))"
proof -
  let ?cs = "list_checkpoints fs"
  have d: "distinct ?cs"
    using assms by (simp add: distinct_list_checkpoints wf_storage_unique)
  have sub: "set (take m ?cs) \<subseteq> set (names fs)"
    using set_take_subset [of m ?cs] by (auto simp: set_list_checkpoints)
  have dis: "set (take m ?cs) \<inter> set (subdirs fs) = {}"
    using set_take_subset [of m ?cs] wf_storage_no_subdir [OF assms] by blast
  from d sub dis obtain fs' where r: "remove_loop (take m ?cs) fs = Inr fs'"
    and n: "names fs' = filter (\<lambda>n. n \<notin> set (take m ?cs)) (names fs)"
    and s: "subdirs fs' = subdirs fs"
    and c: "\<forall>g. content fs' g = (if g \<in> set (take m ?cs) then None else content fs g)"
    using remove_loop_ok [of "take m ?cs" fs] by auto
  have "list_checkpoints fs' = filter (\<lambda>n. n \<notin> set (take m ?cs)) ?cs"
    unfolding list_checkpoints_eq n filter_sort [symmetric]
    by (simp add: conj_commute)
  then have "list_checkpoints fs' = drop m ?cs"
    using d by (simp add: filter_not_in_take)
  moreover have "wf_storage fs'"
    using assms n s by (simp add: wf_storage_def)
  ultimately show ?thesis using r c by blast
qed

lemma to_remove_take: "to_remove cs k = take (length (to_remove cs k)) cs"
proof -
  obtain zs where "cs = to_remove cs k @ zs"
    using to_remove_prefix [of cs k] unfolding prefix_def by blast
  then have "take (length (to_remove cs k)) cs = take (length (to_remove cs k)) (to_remove cs k @ zs)"
    by simp
  then show ?thesis by simp
qed

lemma os_remove_content:
  "os_remove f fs = Inr fs' \<Longrightarrow> content fs' g = (if g = f then None else content fs g)"
  by (cases fs) (auto simp: AList.delete_conv' split: if_splits)

lemma os_remove_missing: "f \<notin> set (names fs) \<Longrightarrow> os_remove f fs = Inl FileNotFoundError"
  by (cases fs) auto

lemma remove_loop_content:
  "g \<notin> set files \<Longrightarrow> content (storage_after (remove_loop files fs)) g = content fs g"
proof (induction files arbitrary: fs)
  case Nil
  then show ?case by (simp add: storage_after_def)
next
  case (Cons f files)
  show ?case
  proof (cases "os_remove f fs")
    case (Inl e)
    then show ?thesis by (simp add: storage_after_def)
  next
    case (Inr fs')
    from Cons.prems have "g \<noteq> f" and "g \<notin> set files" by auto
    with Cons.IH [of fs'] os_remove_content [OF Inr, of g] Inr show ?thesis
      by simp
  qed
qed

lemma remove_loop_append:
  "remove_loop (xs @ ys) fs =
     (case remove_loop xs fs of Inl e \<Rightarrow> Inl e | Inr fs' \<Rightarrow> remove_loop ys fs')"
  by (induction xs arbitrary: fs) (auto split: sum.splits)

lemma py_index_last: "py_index xs (- 1) = (if xs = [] then Inl IndexError else Inr (last xs))"
  by (auto simp: py_index_def Let_def last_conv_nth nat_diff_distrib')









section \<open>The claims\<close>

subsection \<open>C1: what the clean-up removes\<close>



subsection \<open>C2: names and creation order\<close>

text \<open>
  C2 says that of two checkpoints named by the program the one created earlier has the
  smaller name. The format writes the month as its abbreviated name (\<^verbatim>\<open>%b\<close>), and
  the names of the months are not in calendar order: a checkpoint written on 31 January
  2021 at 23:59:59 is created before one written on 1 February 2021 at 00:00:00, yet its
  name is the larger of the two, so it is the last of the sorted listing and the one that
  \<^verbatim>\<open>checkpoints[-1]\<close> takes for the newest: after the two saves, with the epochs 200
  and 400 as what the files hold, loading the latest checkpoint restores epoch 200.
\<close>

theorem checkpoint_names_not_chronological:
  "tm_before
     \<lparr>tm_year = 2021, tm_mon = 1, tm_mday = 31, tm_hour = 23, tm_min = 59, tm_sec = 59\<rparr>
     \<lparr>tm_year = 2021, tm_mon = 2, tm_mday = 1, tm_hour = 0, tm_min = 0, tm_sec = 0\<rparr> \<and>
   checkpoint_name
     \<lparr>tm_year = 2021, tm_mon = 1, tm_mday = 31, tm_hour = 23, tm_min = 59, tm_sec = 59\<rparr>
     = Inr ''check_2021_Jan_31_23_59_59.pth'' \<and>
   checkpoint_name
     \<lparr>tm_year = 2021, tm_mon = 2, tm_mday = 1, tm_hour = 0, tm_min = 0, tm_sec = 0\<rparr>
     = Inr ''check_2021_Feb_01_00_00_00.pth'' \<and>
   ''check_2021_Feb_01_00_00_00.pth'' < ''check_2021_Jan_31_23_59_59.pth'' \<and>
   save_checkpoint
     \<lparr>tm_year = 2021, tm_mon = 1, tm_mday = 31, tm_hour = 23, tm_min = 59, tm_sec = 59\<rparr>
     (200 :: nat) (Dir [])
     = Inr (Dir [(''check_2021_Jan_31_23_59_59.pth'', 200)]) \<and>
   save_checkpoint
     \<lparr>tm_year = 2021, tm_mon = 2, tm_mday = 1, tm_hour = 0, tm_min = 0, tm_sec = 0\<rparr>
     (400 :: nat) (Dir [(''check_2021_Jan_31_23_59_59.pth'', 200)])
     = Inr (Dir [(''check_2021_Jan_31_23_59_59.pth'', 200),
                 (''check_2021_Feb_01_00_00_00.pth'', 400)]) \<and>
   list_checkpoints (Dir [(''check_2021_Jan_31_23_59_59.pth'', 200 :: nat),
                          (''check_2021_Feb_01_00_00_00.pth'', 400)])
     = [''check_2021_Feb_01_00_00_00.pth'', ''check_2021_Jan_31_23_59_59.pth''] \<and>
   load_latest (Dir [(''check_2021_Jan_31_23_59_59.pth'', 200 :: nat),
                     (''check_2021_Feb_01_00_00_00.pth'', 400)])
     = Inr 200"
  by (simp add: tm_before_def tm_fields_def checkpoint_name_def timestamp_def strftime_def
      tm_in_range_def zero_as_one_def two_digits_def digit_def month_abbr_def
      save_checkpoint_def list_checkpoints_def glob_match_def ishidden_def load_latest_def
      latest_def py_index_def)

subsection \<open>C3: the latest checkpoint\<close>

text \<open>
  C3 as stated, that \<open>latest\<close> of an empty list is a "none" result and not an
  exception, fails: \<^verbatim>\<open>checkpoints[-1]\<close> of an empty list raises \<^verbatim>\<open>IndexError\<close>.
\<close>

theorem latest_empty_raises: "latest ([] :: string list) = Inl IndexError"
  by (simp add: latest_def py_index_def)

text \<open>
  C3 as amended: \<open>latest\<close> raises \<^verbatim>\<open>IndexError\<close> on the empty list and returns the
  last element of every other list.
\<close>

theorem latest_returns_last:
  "latest cs = (if cs = [] then Inl IndexError else Inr (last cs))"
  by (simp add: latest_def py_index_last)

theorem latest_returns_last_witness:
  "[''check_0001'', ''check_0002''] \<noteq> [] \<and>
   latest [''check_0001'', ''check_0002''] = Inr ''check_0002''"
  using latest_returns_last [of "[''check_0001'', ''check_0002'']"] by simp

subsection \<open>C4: removing a file that is gone\<close>

text \<open>
  C4 as stated, that deleting an identifier which no longer exists is a no-op and not an
  error, fails: \<^verbatim>\<open>os.remove\<close> raises \<^verbatim>\<open>FileNotFoundError\<close> and nothing catches it.
  With \<^verbatim>\<open>check_1.pth\<close> gone after the listing was taken, the loop over
  \<^verbatim>\<open>checkpoints[:-3]\<close> stops at it and \<^verbatim>\<open>check_2.pth\<close> is not removed either.
\<close>

theorem remove_missing_raises:
  "to_remove [''check_1.pth'', ''check_2.pth'', ''check_3.pth'', ''check_4.pth'', ''check_5.pth''] 3
     = [''check_1.pth'', ''check_2.pth''] \<and>
   remove_loop [''check_1.pth'', ''check_2.pth'']
     (Dir [(''check_2.pth'', ()), (''check_3.pth'', ()), (''check_4.pth'', ()), (''check_5.pth'', ())])
   = Inl (FileNotFoundError,
       Dir [(''check_2.pth'', ()), (''check_3.pth'', ()), (''check_4.pth'', ()), (''check_5.pth'', ())])"
  by (simp add: to_remove_def py_slice_to_def)

text \<open>
  C4 as amended: when the loop reaches an identifier that is not in the directory, having
  removed the ones before it, it ends with \<^verbatim>\<open>FileNotFoundError\<close>; the identifiers
  before it stay removed, and it and the identifiers after it are left as they were.
\<close>

theorem remove_loop_missing_file:
  assumes "remove_loop before fs = Inr fs'" and "f \<notin> set (names fs')"
  shows "remove_loop (before @ f # rest) fs = Inl (FileNotFoundError, fs')"
  using assms by (simp add: remove_loop_append os_remove_missing)

theorem remove_loop_missing_file_witness:
  "remove_loop [''check_1.pth'']
     (Dir [(''check_1.pth'', ()), (''check_3.pth'', ())]) = Inr (Dir [(''check_3.pth'', ())]) \<and>
   ''check_2.pth'' \<notin> set (names (Dir [(''check_3.pth'', ())])) \<and>
   remove_loop ([''check_1.pth''] @ ''check_2.pth'' # [''check_3.pth''])
     (Dir [(''check_1.pth'', ()), (''check_3.pth'', ())])
   = Inl (FileNotFoundError, Dir [(''check_3.pth'', ())])"
proof -
  have h1: "remove_loop [''check_1.pth'']
     (Dir [(''check_1.pth'', ()), (''check_3.pth'', ())]) = Inr (Dir [(''check_3.pth'', ())])"
    by simp
  have h2: "''check_2.pth'' \<notin> set (names (Dir [(''check_3.pth'', ())]))"
    by simp
  from remove_loop_missing_file [OF h1 h2, of "[''check_3.pth'']"] h1 h2
  show ?thesis by blast
qed

subsection \<open>C5: running the clean-up again\<close>




subsection \<open>C7: listing the checkpoints\<close>

text \<open>
  C7: for every state of the directory and every pattern the sorted listing is sorted
  ascending and holds exactly the names that match the pattern; it depends on the names
  alone and not on the order in which the directory enumerates them, so two listings of
  the same state are the same sequence; and it is empty, with no error, for an empty
  directory and for a missing one. The notebook's listing is the one for the pattern
  \<^verbatim>\<open>check_*.pth\<close>, which matches the names with the prefix \<^verbatim>\<open>check_\<close> and the
  suffix \<^verbatim>\<open>.pth\<close>.
\<close>

theorem list_checkpoints_sorted_deterministic:
  "sorted (sort (glob pat fs)) \<and>
   mset (sort (glob pat fs)) = filter_mset (glob_match pat) (mset (names fs)) \<and>
   (mset (names fs) = mset (names fs') \<longrightarrow> sort (glob pat fs) = sort (glob pat fs')) \<and>
   sort (glob pat (Dir [])) = [] \<and>
   sort (glob pat Missing) = [] \<and>
   list_checkpoints fs = sort (glob ''check_*.pth'' fs) \<and>
   (\<forall>f. glob_match ''check_*.pth'' f \<longleftrightarrow> prefix ''check_'' f \<and> suffix ''.pth'' f)"
proof -
  have "mset (names fs) = mset (names fs') \<longrightarrow> sort (glob pat fs) = sort (glob pat fs')"
  proof
    assume "mset (names fs) = mset (names fs')"
    then have "mset (glob pat fs) = mset (glob pat fs')"
      by (simp add: glob_names)
    then show "sort (glob pat fs) = sort (glob pat fs')"
      by (metis sorted_list_of_multiset_mset)
  qed
  moreover have "mset (sort (glob pat fs)) = filter_mset (glob_match pat) (mset (names fs))"
    by (simp add: glob_names)
  moreover have "\<forall>f. glob_match ''check_*.pth'' f \<longleftrightarrow> prefix ''check_'' f \<and> suffix ''.pth'' f"
    by (simp add: glob_match_checkpoint is_checkpoint_def)
  ultimately show ?thesis
    by (simp add: list_checkpoints_def)
qed

theorem list_checkpoints_sorted_deterministic_witness:
  "mset (names (Dir [(''check_b.pth'', ()), (''model.pth'', ()), (''check_a.pth'', ())])) =
   mset (names (Dir [(''check_a.pth'', ()), (''check_b.pth'', ()), (''model.pth'', ())])) \<and>
   list_checkpoints (Dir [(''check_b.pth'', ()), (''model.pth'', ()), (''check_a.pth'', ())]) =
   list_checkpoints (Dir [(''check_a.pth'', ()), (''check_b.pth'', ()), (''model.pth'', ())]) \<and>
   list_checkpoints (Dir [(''check_b.pth'', ()), (''model.pth'', ()), (''check_a.pth'', ())]) =
   [''check_a.pth'', ''check_b.pth'']"
proof -
  let ?fs = "Dir [(''check_b.pth'', ()), (''model.pth'', ()), (''check_a.pth'', ())]"
  let ?fs' = "Dir [(''check_a.pth'', ()), (''check_b.pth'', ()), (''model.pth'', ())]"
  have h: "mset (names ?fs) = mset (names ?fs')" by (simp add: add.commute add.left_commute)
  have v: "list_checkpoints ?fs' = [''check_a.pth'', ''check_b.pth'']"
    by (simp add: list_checkpoints_def glob_match_def ishidden_def)
  from list_checkpoints_sorted_deterministic [of "''check_*.pth''" ?fs ?fs'] h
  have "sort (glob ''check_*.pth'' ?fs) = sort (glob ''check_*.pth'' ?fs')" by blast
  then have "list_checkpoints ?fs = list_checkpoints ?fs'"
    unfolding list_checkpoints_def .
  with h v show ?thesis by simp
qed

subsection \<open>C9: what prune leaves alone\<close>

text \<open>
  C9: for every directory and every \<open>keep_count\<close>, a name that does not have both the
  prefix \<^verbatim>\<open>check_\<close> and the suffix \<^verbatim>\<open>.pth\<close> is in the directory after prune exactly
  when it was before, with the same content, also when prune ends with an exception.
\<close>

theorem prune_frame:
  assumes "\<not> (prefix ''check_'' g \<and> suffix ''.pth'' g)"
  shows "content (storage_after (prune k fs)) g = content fs g"
proof -
  let ?cs = "list_checkpoints fs"
  have "set (to_remove ?cs k) \<subseteq> set ?cs"
    using to_remove_prefix [of ?cs k] by (rule set_mono_prefix)
  then have "g \<notin> set (to_remove ?cs k)"
    using assms by (auto simp: set_list_checkpoints is_checkpoint_def)
  then have "content (storage_after (remove_loop (to_remove ?cs k) fs)) g = content fs g"
    by (rule remove_loop_content)
  then show ?thesis
    by (simp add: prune_def)
qed

theorem prune_frame_witness:
  "\<not> (prefix ''check_'' ''model.pth'' \<and> suffix ''.pth'' ''model.pth'') \<and>
   prune 3 (Dir [(''check_1.pth'', 1), (''model.pth'', 7), (''check_2.pth'', 2),
                 (''check_3.pth'', 3), (''check_4.pth'', 4 :: nat)])
     = Inr (Dir [(''model.pth'', 7), (''check_2.pth'', 2), (''check_3.pth'', 3),
                 (''check_4.pth'', 4)]) \<and>
   content (storage_after (prune 3 (Dir [(''check_1.pth'', 1), (''model.pth'', 7),
                 (''check_2.pth'', 2), (''check_3.pth'', 3), (''check_4.pth'', 4 :: nat)])))
     ''model.pth'' = Some 7"
proof -
  let ?fs = "Dir [(''check_1.pth'', 1), (''model.pth'', 7), (''check_2.pth'', 2),
                 (''check_3.pth'', 3), (''check_4.pth'', 4 :: nat)]"
  have h: "\<not> (prefix ''check_'' ''model.pth'' \<and> suffix ''.pth'' ''model.pth'')"
    by simp
  have p: "prune 3 ?fs = Inr (Dir [(''model.pth'', 7), (''check_2.pth'', 2), (''check_3.pth'', 3),
                 (''check_4.pth'', 4)])"
    by (simp add: prune_def list_checkpoints_def glob_match_def ishidden_def to_remove_def py_slice_to_def)
  have "content ?fs ''model.pth'' = Some 7" by simp
  with prune_frame [OF h, of 3 ?fs] h p show ?thesis by simp
qed

subsection \<open>C10: the order of removal\<close>

text \<open>
  C10: for every ascending list and every \<open>keep_count\<close>, the sequence that prune removes
  is a prefix of the list and is sorted ascending; and after any number \<open>i\<close> of
  iterations of the loop the listing of the directory is the list without its first
  \<open>i\<close> identifiers, so the removals go from the oldest on and the newest identifiers are
  still there at every point.
\<close>

theorem prune_removes_prefix_in_order:
  assumes "sorted cs"
  shows "prefix (to_remove cs k) cs \<and> sorted (to_remove cs k) \<and>
         (wf_storage fs \<and> cs = list_checkpoints fs \<and> i \<le> length (to_remove cs k) \<longrightarrow>
            (\<exists>fs'. remove_loop (take i (to_remove cs k)) fs = Inr fs' \<and>
                   list_checkpoints fs' = drop i cs))"
proof -
  have t: "to_remove cs k = take (length (to_remove cs k)) cs"
    by (rule to_remove_take)
  have s: "sorted (to_remove cs k)"
    using assms by (subst t) (rule sorted_wrt_take)
  have l: "wf_storage fs \<and> cs = list_checkpoints fs \<and> i \<le> length (to_remove cs k) \<longrightarrow>
            (\<exists>fs'. remove_loop (take i (to_remove cs k)) fs = Inr fs' \<and>
                   list_checkpoints fs' = drop i cs)"
  proof (intro impI, elim conjE)
    assume w: "wf_storage fs" and c: "cs = list_checkpoints fs"
      and i: "i \<le> length (to_remove cs k)"
    have "take i (to_remove cs k) = take i (take (length (to_remove cs k)) cs)"
      using t by (rule arg_cong)
    also have "\<dots> = take i cs"
      using i by (simp add: min_def)
    finally have "remove_loop (take i (to_remove cs k)) fs = remove_loop (take i cs) fs"
      by simp
    with remove_oldest [OF w, of i]
    show "\<exists>fs'. remove_loop (take i (to_remove cs k)) fs = Inr fs' \<and>
                   list_checkpoints fs' = drop i cs"
      unfolding c by auto
  qed
  from to_remove_prefix [of cs k] s l show ?thesis by blast
qed

theorem prune_removes_prefix_in_order_witness:
  "sorted [''check_1.pth'', ''check_2.pth'', ''check_3.pth'', ''check_4.pth'', ''check_5.pth''] \<and>
   to_remove [''check_1.pth'', ''check_2.pth'', ''check_3.pth'', ''check_4.pth'', ''check_5.pth''] 3
     = [''check_1.pth'', ''check_2.pth''] \<and>
   prefix [''check_1.pth'', ''check_2.pth'']
     [''check_1.pth'', ''check_2.pth'', ''check_3.pth'', ''check_4.pth'', ''check_5.pth''] \<and>
   sorted [''check_1.pth'', ''check_2.pth''] \<and>
   wf_storage (Dir [(''check_5.pth'', ()), (''check_1.pth'', ()), (''check_4.pth'', ()),
                    (''check_2.pth'', ()), (''check_3.pth'', ())]) \<and>
   (\<exists>fs'. remove_loop [''check_1.pth'']
            (Dir [(''check_5.pth'', ()), (''check_1.pth'', ()), (''check_4.pth'', ()),
                  (''check_2.pth'', ()), (''check_3.pth'', ())]) = Inr fs' \<and>
          list_checkpoints fs' = [''check_2.pth'', ''check_3.pth'', ''check_4.pth'', ''check_5.pth''])"
proof -
  let ?cs = "[''check_1.pth'', ''check_2.pth'', ''check_3.pth'', ''check_4.pth'', ''check_5.pth'']"
  let ?fs = "Dir [(''check_5.pth'', ()), (''check_1.pth'', ()), (''check_4.pth'', ()),
                  (''check_2.pth'', ()), (''check_3.pth'', ())]"
  have h1: "sorted ?cs" by simp
  have r: "to_remove ?cs 3 = [''check_1.pth'', ''check_2.pth'']"
    by (simp add: to_remove_def py_slice_to_def)
  have h2: "wf_storage ?fs" by (simp add: wf_storage_def)
  have h3: "list_checkpoints ?fs = ?cs" by (simp add: list_checkpoints_def glob_match_def ishidden_def)
  have h4: "1 \<le> length (to_remove ?cs 3)" unfolding r by simp
  from prune_removes_prefix_in_order [OF h1, of 3 ?fs 1] h2 h3 [symmetric] h4
  have "prefix (to_remove ?cs 3) ?cs" and "sorted (to_remove ?cs 3)"
    and "\<exists>fs'. remove_loop (take 1 (to_remove ?cs 3)) ?fs = Inr fs' \<and>
           list_checkpoints fs' = drop 1 ?cs"
    by blast+
  then show ?thesis using h1 h2 unfolding r by simp
qed

end
